theory Spec2Isabelle
  imports Complex_Main
begin

section \<open>JavaScript values used by the bill scanning module\<close>

text \<open>
  A JavaScript string is a sequence of UTF-16 code units; a code unit is modelled as a
  natural number, so that characters outside Latin-1 (the rupee sign U+20B9 of the amount
  patterns, the Unicode spaces of \<^verbatim>\<open>\s\<close> and \<^verbatim>\<open>trim\<close>) are ordinary values. \<open>js\<close> turns an
  Isabelle literal into such a string.
\<close>

type_synonym jschar = nat
type_synonym jsstring = "jschar list"

definition js :: "string \<Rightarrow> jsstring" where
  "js s = map of_char s"

text \<open>
  WhiteSpace and LineTerminator of ECMAScript: the characters removed by
  \<^verbatim>\<open>String.prototype.trim\<close>, skipped by \<^verbatim>\<open>parseFloat\<close> and matched by \<^verbatim>\<open>\s\<close>.
\<close>

definition is_ws :: "jschar \<Rightarrow> bool" where
  "is_ws c = ((9 \<le> c \<and> c \<le> 13) \<or> c = 32 \<or> c = 160 \<or> c = 5760
      \<or> (8192 \<le> c \<and> c \<le> 8202) \<or> c = 8232 \<or> c = 8233 \<or> c = 8239
      \<or> c = 8287 \<or> c = 12288 \<or> c = 65279)"

definition trim :: "jsstring \<Rightarrow> jsstring" where
  "trim s = rev (dropWhile is_ws (rev (dropWhile is_ws s)))"

text \<open>
  The guard \<^verbatim>\<open>v && v.trim() !== ''\<close> on a string \<open>v\<close>: \<open>v\<close> is truthy (not empty) and
  not made of white space only. \<open>present\<close> is that guard; its negation is the guard
  \<^verbatim>\<open>!v || v.trim() === ''\<close>.
\<close>

definition present :: "jsstring \<Rightarrow> bool" where
  "present v = (v \<noteq> [] \<and> trim v \<noteq> [])"

text \<open>\<^verbatim>\<open>Math.round\<close> on a finite number rounds to the nearest integer, halves upwards.\<close>

definition Math_round :: "rat \<Rightarrow> rat" where
  "Math_round x = of_int \<lfloor>x + 1 / 2\<rfloor>"

section \<open>ConfidenceModule\<close>

text \<open>
  The keys of \<^verbatim>\<open>fieldConfidences\<close> are the five fields of a bill: every caller passes a
  key of the \<^verbatim>\<open>billData\<close> object or the id of one of the five form fields.
\<close>

datatype field_name = BillNo | Date | Customer | Gst | Total

datatype status = high | medium | low | unknown

text \<open>
  An entry of \<^verbatim>\<open>fieldConfidences\<close>. The default entry returned for a missing key has no
  \<^verbatim>\<open>value\<close> property, hence the option.
\<close>

record FieldConfidence =
  confidence :: rat
  val :: "jsstring option"
  needsReview :: bool
  status :: status

type_synonym ConfidenceModule = "field_name \<rightharpoonup> FieldConfidence"

definition setFieldConfidence ::
  "ConfidenceModule \<Rightarrow> field_name \<Rightarrow> rat \<Rightarrow> jsstring \<Rightarrow> ConfidenceModule" where
  "setFieldConfidence fieldConfidences fieldName c v =
     fieldConfidences(fieldName \<mapsto>
       \<lparr> confidence = Math_round (c * 100) / 100,
         val = Some v,
         needsReview = (c < 7 / 10),
         status = (if c \<ge> 8 / 10 then high else if c \<ge> 6 / 10 then medium else low) \<rparr>)"

definition getFieldConfidence :: "ConfidenceModule \<Rightarrow> field_name \<Rightarrow> FieldConfidence" where
  "getFieldConfidence fieldConfidences fieldName =
     (case fieldConfidences fieldName of
        Some e \<Rightarrow> e
      | None \<Rightarrow> \<lparr> confidence = 0, val = None, needsReview = True, status = unknown \<rparr>)"

definition reset :: "ConfidenceModule" where
  "reset = Map.empty"

text \<open>
  The life of the module between page load and a read: a sequence of recordings and
  resets, applied to the initial empty object.
\<close>

datatype conf_op = Record field_name rat jsstring | Reset

fun conf_step :: "ConfidenceModule \<Rightarrow> conf_op \<Rightarrow> ConfidenceModule" where
  "conf_step m (Record f c v) = setFieldConfidence m f c v"
| "conf_step m Reset = reset"

definition conf_run :: "conf_op list \<Rightarrow> ConfidenceModule" where
  "conf_run ops = foldl conf_step Map.empty ops"

text \<open>The fields recorded since the last reset (or since the start).\<close>

fun recorded :: "field_name list \<Rightarrow> conf_op list \<Rightarrow> field_name list" where
  "recorded acc [] = acc"
| "recorded acc (Record f c v # ops) = recorded (f # acc) ops"
| "recorded acc (Reset # ops) = recorded [] ops"

section \<open>ImageQualityModule\<close>

text \<open>
  The numbers of the quality checks. JavaScript computes them in IEEE double precision;
  the model computes them exactly over the rationals and keeps \<open>NaN\<close>, the result of
  \<^verbatim>\<open>0 / 0\<close> and of arithmetic on \<^verbatim>\<open>undefined\<close> (a read outside the pixel array).
  Every comparison with \<open>NaN\<close> is false.
\<close>

datatype num = NaN | Num rat

fun num_add :: "num \<Rightarrow> num \<Rightarrow> num" where
  "num_add (Num a) (Num b) = Num (a + b)"
| "num_add _ _ = NaN"

fun num_sub :: "num \<Rightarrow> num \<Rightarrow> num" where
  "num_sub (Num a) (Num b) = Num (a - b)"
| "num_sub _ _ = NaN"

fun num_mul :: "num \<Rightarrow> num \<Rightarrow> num" where
  "num_mul (Num a) (Num b) = Num (a * b)"
| "num_mul _ _ = NaN"

text \<open>
  Division. The only divisor that can be zero in this module is a sample count, and the
  sum it divides is then zero too, so the quotient by zero is always \<^verbatim>\<open>0 / 0 = NaN\<close>.
\<close>

fun num_div :: "num \<Rightarrow> num \<Rightarrow> num" where
  "num_div (Num a) (Num b) = (if b = 0 then NaN else Num (a / b))"
| "num_div _ _ = NaN"

fun num_abs :: "num \<Rightarrow> num" where
  "num_abs (Num a) = Num \<bar>a\<bar>"
| "num_abs NaN = NaN"

fun num_min :: "num \<Rightarrow> num \<Rightarrow> num" where
  "num_min (Num a) (Num b) = Num (min a b)"
| "num_min _ _ = NaN"

fun num_max :: "num \<Rightarrow> num \<Rightarrow> num" where
  "num_max (Num a) (Num b) = Num (max a b)"
| "num_max _ _ = NaN"

fun num_lt :: "num \<Rightarrow> num \<Rightarrow> bool" where
  "num_lt (Num a) (Num b) = (a < b)"
| "num_lt _ _ = False"

fun num_ge :: "num \<Rightarrow> num \<Rightarrow> bool" where
  "num_ge (Num a) (Num b) = (a \<ge> b)"
| "num_ge _ _ = False"

definition num_of_nat :: "nat \<Rightarrow> num" where
  "num_of_nat n = Num (of_nat n)"

text \<open>
  \<^verbatim>\<open>ImageData\<close>: the RGBA bytes of the canvas, row by row. \<open>data_at d i\<close> is \<^verbatim>\<open>data[i]\<close>
  as a number: \<^verbatim>\<open>undefined\<close> outside the array, which every operation turns into \<open>NaN\<close>.
\<close>

record ImageData =
  width :: nat
  height :: nat
  data :: "nat list"

definition data_at :: "nat list \<Rightarrow> nat \<Rightarrow> num" where
  "data_at d i = (if i < length d then num_of_nat (d ! i) else NaN)"

text \<open>The indices visited by \<^verbatim>\<open>for (let i = start; i < stop; i += step)\<close>.\<close>

function loop_indices :: "nat \<Rightarrow> nat \<Rightarrow> nat \<Rightarrow> nat list" where
  "loop_indices i stop step =
     (if i < stop \<and> 0 < step then i # loop_indices (i + step) stop step else [])"
  by pat_completeness auto
termination
  by (relation "measure (\<lambda>(i, stop, step). stop - i)") auto

declare loop_indices.simps [simp del]

datatype issue = low_resolution | blurry | too_dark | too_bright | low_contrast
  | text_too_small | null

record Resolution =
  res_width :: nat
  res_height :: nat
  totalPixels :: nat
  res_adequate :: bool
  recommended :: bool

definition checkResolution :: "nat \<Rightarrow> nat \<Rightarrow> Resolution" where
  "checkResolution w h =
     (let minPixels = 500 * 500; total = w * h
      in \<lparr> res_width = w, res_height = h, totalPixels = total,
           res_adequate = (total \<ge> minPixels), recommended = (total \<ge> 1000 * 1000) \<rparr>)"

record Blur =
  variance :: num
  isBlurry :: bool
  blur_adequate :: bool

text \<open>
  The grey value \<^verbatim>\<open>(data[idx] + data[idx + 1] + data[idx + 2]) / 3\<close> and the simplified
  Laplacian of the pixel \<open>(x, y)\<close>.
\<close>

definition gray_at :: "nat list \<Rightarrow> nat \<Rightarrow> num" where
  "gray_at d idx = num_div (num_add (num_add (data_at d idx) (data_at d (idx + 1))) (data_at d (idx + 2))) (Num 3)"

definition laplacian :: "nat list \<Rightarrow> nat \<Rightarrow> nat \<times> nat \<Rightarrow> num" where
  "laplacian d w p =
     (case p of (x, y) \<Rightarrow>
        let idx = (y * w + x) * 4;
            gray = gray_at d idx;
            grayRight = gray_at d (idx + 4);
            grayBottom = gray_at d (((y + 1) * w + x) * 4)
        in num_abs (num_sub (num_sub (num_mul gray (Num 2)) grayRight) grayBottom))"

text \<open>
  The pixels visited by the two nested loops of \<^verbatim>\<open>detectBlur\<close>:
  \<^verbatim>\<open>for (y = 1; y < height - 1; y += 2) for (x = 1; x < width - 1; x += 2)\<close>.
\<close>

definition blur_samples :: "nat \<Rightarrow> nat \<Rightarrow> (nat \<times> nat) list" where
  "blur_samples w h =
     concat (map (\<lambda>y. map (\<lambda>x. (x, y)) (loop_indices 1 (w - 1) 2)) (loop_indices 1 (h - 1) 2))"

definition detectBlur :: "ImageData \<Rightarrow> Blur" where
  "detectBlur imageData =
     (let d = data imageData; w = width imageData; h = height imageData;
          samples = blur_samples w h;
          count = num_of_nat (length samples);
          mean = num_div (foldl (\<lambda>mean p. num_add mean (laplacian d w p)) (Num 0) samples) count;
          var = num_div
            (foldl (\<lambda>var p.
                num_add var (let l = num_sub (laplacian d w p) mean in num_mul l l))
              (Num 0) samples)
            count;
          threshold = Num 100
      in \<lparr> variance = var, isBlurry = num_lt var threshold,
           blur_adequate = num_ge var threshold \<rparr>)"

record Brightness =
  average :: num
  bright_adequate :: bool
  bright_issue :: issue

definition checkBrightness :: "ImageData \<Rightarrow> Brightness" where
  "checkBrightness imageData =
     (let d = data imageData;
          samples = loop_indices 0 (length d) 16;
          totalBrightness = foldl (\<lambda>t i. num_add t (gray_at d i)) (Num 0) samples;
          count = num_of_nat (length samples);
          avgBrightness = num_div totalBrightness count;
          minBrightness = Num 50;
          maxBrightness = Num 200
      in \<lparr> average = avgBrightness,
           bright_adequate = (num_ge avgBrightness minBrightness \<and> num_ge maxBrightness avgBrightness),
           bright_issue = (if num_lt avgBrightness minBrightness then too_dark
                           else if num_lt maxBrightness avgBrightness then too_bright
                           else null) \<rparr>)"

record Contrast =
  contrast_value :: num
  contrast_adequate :: bool

definition checkContrast :: "ImageData \<Rightarrow> Contrast" where
  "checkContrast imageData =
     (let d = data imageData;
          samples = loop_indices 0 (length d) 16;
          mn = foldl (\<lambda>m i. num_min m (gray_at d i)) (Num 255) samples;
          mx = foldl (\<lambda>m i. num_max m (gray_at d i)) (Num 0) samples;
          contrast = num_sub mx mn;
          minContrast = Num 50
      in \<lparr> contrast_value = contrast, contrast_adequate = num_ge contrast minContrast \<rparr>)"

record TextSize =
  estimatedDPI :: rat
  minTextSizePixels :: rat
  text_adequate :: bool

definition estimateTextSize :: "nat \<Rightarrow> nat \<Rightarrow> TextSize" where
  "estimateTextSize w h =
     (let dpi = min (of_nat w / (827 / 100)) (of_nat h / (1169 / 100));
          minTextSize = 10;
          minPixels = (minTextSize / 72) * dpi
      in \<lparr> estimatedDPI = dpi, minTextSizePixels = minPixels,
           text_adequate = (dpi \<ge> 150 \<and> w \<ge> 1000) \<rparr>)"

datatype overall = good | poor

text \<open>
  The report. The \<^verbatim>\<open>issues\<close> property is only set when the list of issues is not empty,
  hence the option.
\<close>

record QualityReport =
  resolution :: Resolution
  blur :: Blur
  brightness :: Brightness
  contrast :: Contrast
  textSize :: TextSize
  overall :: overall
  issues :: "issue list option"

text \<open>
  The body of the \<^verbatim>\<open>onload\<close> handler of \<^verbatim>\<open>analyzeQuality\<close>, from the pixels of the
  canvas on; the canvas has the width and height of the image data.
\<close>

definition analyzeQuality :: "ImageData \<Rightarrow> QualityReport" where
  "analyzeQuality imageData =
     (let r = checkResolution (width imageData) (height imageData);
          b = detectBlur imageData;
          br = checkBrightness imageData;
          c = checkContrast imageData;
          t = estimateTextSize (width imageData) (height imageData);
          found = (if \<not> res_adequate r then [low_resolution] else [])
                @ (if isBlurry b then [blurry] else [])
                @ (if \<not> bright_adequate br then [bright_issue br] else [])
                @ (if \<not> contrast_adequate c then [low_contrast] else [])
                @ (if \<not> text_adequate t then [text_too_small] else [])
      in \<lparr> resolution = r, blur = b, brightness = br, contrast = c, textSize = t,
           overall = (if length found > 0 then poor else good),
           issues = (if length found > 0 then Some found else None) \<rparr>)"

text \<open>
  The position of an issue in the fixed order of the checks: resolution, blur, brightness,
  contrast, text size. The three outcomes of the brightness check share a position.
\<close>

fun check_of :: "issue \<Rightarrow> nat" where
  "check_of low_resolution = 0"
| "check_of blurry = 1"
| "check_of too_dark = 2"
| "check_of too_bright = 2"
| "check_of null = 2"
| "check_of low_contrast = 3"
| "check_of text_too_small = 4"

section \<open>Regular expressions\<close>

text \<open>
  The patterns of the extraction module use character classes, literals, alternatives,
  one capture group, the end anchor and quantifiers applied to a single character
  class. \<open>Rep greedy lo hi cls\<close> is such a quantifier: between \<open>lo\<close> and \<open>hi\<close> characters
  of \<open>cls\<close> (no upper bound for \<open>None\<close>), the longest run first when greedy and the
  shortest first when lazy.
\<close>

datatype re =
    Chr "jschar \<Rightarrow> bool"
  | Seq re re
  | Alt re re
  | Rep bool nat "nat option" "jschar \<Rightarrow> bool"
  | Cap re
  | Eps
  | End

text \<open>
  A matcher state is the input that is left and the text of capture group 1.
  \<open>rmatch r st\<close> lists the states in which a match of \<open>r\<close> from \<open>st\<close> can end, in the order
  in which the backtracking matcher of ECMAScript tries them: its first element is the
  match that a pattern ending in \<open>r\<close> finds.
\<close>

type_synonym mstate = "jsstring \<times> jsstring option"

definition rep_counts :: "bool \<Rightarrow> nat \<Rightarrow> nat option \<Rightarrow> nat \<Rightarrow> nat list" where
  "rep_counts greedy lo hi run =
     (let top = (case hi of None \<Rightarrow> run | Some h \<Rightarrow> min h run);
          counts = [lo..<Suc top]
      in if greedy then rev counts else counts)"

fun rmatch :: "re \<Rightarrow> mstate \<Rightarrow> mstate list" where
  "rmatch (Chr p) (s, c) = (case s of [] \<Rightarrow> [] | x # xs \<Rightarrow> if p x then [(xs, c)] else [])"
| "rmatch (Seq a b) st = concat (map (rmatch b) (rmatch a st))"
| "rmatch (Alt a b) st = rmatch a st @ rmatch b st"
| "rmatch (Rep greedy lo hi p) (s, c) =
     map (\<lambda>k. (drop k s, c)) (rep_counts greedy lo hi (length (takeWhile p s)))"
| "rmatch (Cap r) (s, c) =
     map (\<lambda>(s', c'). (s', Some (take (length s - length s') s))) (rmatch r (s, c))"
| "rmatch Eps st = [st]"
| "rmatch End (s, c) = (if s = [] then [(s, c)] else [])"

text \<open>
  The first match at the start of \<open>s\<close>, as the matched text and the capture.
\<close>

definition match_here :: "re \<Rightarrow> jsstring \<Rightarrow> (jsstring \<times> jsstring option) option" where
  "match_here r s =
     (case rmatch r (s, None) of
        [] \<Rightarrow> None
      | (rest, c) # _ \<Rightarrow> Some (take (length s - length rest) s, c))"

text \<open>
  \<^verbatim>\<open>text.match(pattern)\<close> for a pattern without the \<^verbatim>\<open>g\<close> flag: the leftmost match,
  every position up to the end of the text being tried in turn.
\<close>

fun search :: "re \<Rightarrow> jsstring \<Rightarrow> (jsstring \<times> jsstring option) option" where
  "search r [] = match_here r []"
| "search r (x # xs) =
     (case match_here r (x # xs) of Some m \<Rightarrow> Some m | None \<Rightarrow> search r xs)"

text \<open>
  \<^verbatim>\<open>match[1]\<close> when \<^verbatim>\<open>match && match[1]\<close> holds: the pattern matches and its group has
  captured a non-empty string.
\<close>

definition capture :: "re \<Rightarrow> jsstring \<Rightarrow> jsstring option" where
  "capture r text =
     (case search r text of
        Some (m, Some c) \<Rightarrow> if c \<noteq> [] then Some c else None
      | _ \<Rightarrow> None)"

text \<open>
  \<^verbatim>\<open>text.match(pattern)\<close> for a pattern with the \<^verbatim>\<open>g\<close> flag: the matched texts from left
  to right, each search starting where the previous match ended (one character further
  after an empty match). \<open>skip\<close> counts the characters of the previous match still to be
  passed. The result \<^verbatim>\<open>null\<close> for no match is the empty list.
\<close>

fun match_all :: "re \<Rightarrow> nat \<Rightarrow> jsstring \<Rightarrow> jsstring list" where
  "match_all r skip [] =
     (if skip = 0 then (case match_here r [] of Some (m, c) \<Rightarrow> [m] | None \<Rightarrow> []) else [])"
| "match_all r skip (x # xs) =
     (if skip > 0 then match_all r (skip - 1) xs
      else (case match_here r (x # xs) of
              Some (m, c) \<Rightarrow> m # match_all r (length m - 1) xs
            | None \<Rightarrow> match_all r 0 xs))"

subsection \<open>Building blocks of the patterns\<close>

definition digit :: "jschar \<Rightarrow> bool" where
  "digit c = (48 \<le> c \<and> c \<le> 57)"

definition upper_az :: "jschar \<Rightarrow> bool" where
  "upper_az c = (65 \<le> c \<and> c \<le> 90)"

definition lower_az :: "jschar \<Rightarrow> bool" where
  "lower_az c = (97 \<le> c \<and> c \<le> 122)"

definition ch :: "char \<Rightarrow> jschar" where
  "ch c = of_char c"

text \<open>
  A literal character under the \<^verbatim>\<open>i\<close> flag matches itself and, for an ASCII letter, its
  other case; no character outside ASCII is canonicalised to an ASCII letter.
\<close>

definition ci :: "jschar \<Rightarrow> jschar \<Rightarrow> bool" where
  "ci a c = (c = a \<or> (upper_az a \<and> c = a + 32) \<or> (lower_az a \<and> c + 32 = a))"

definition seqs :: "re list \<Rightarrow> re" where
  "seqs rs = foldr Seq rs Eps"

fun alts :: "re list \<Rightarrow> re" where
  "alts [] = Chr (\<lambda>c. False)"
| "alts [r] = r"
| "alts (r # rs) = Alt r (alts rs)"

definition lit_i :: "string \<Rightarrow> re" where
  "lit_i s = seqs (map (\<lambda>a. Chr (ci a)) (js s))"

definition many :: "(jschar \<Rightarrow> bool) \<Rightarrow> re" where
  "many p = Rep True 0 None p"

definition many1 :: "(jschar \<Rightarrow> bool) \<Rightarrow> re" where
  "many1 p = Rep True 1 None p"

definition maybe :: "(jschar \<Rightarrow> bool) \<Rightarrow> re" where
  "maybe p = Rep True 0 (Some 1) p"

section \<open>DataExtractionModule\<close>

subsection \<open>The patterns of extractBillData\<close>

text \<open>The classes \<^verbatim>\<open>[\s#:]\<close>, \<^verbatim>\<open>[.\s#:]\<close>, \<^verbatim>\<open>[\s:]\<close> and, under the \<^verbatim>\<open>i\<close> flag,
  \<^verbatim>\<open>[A-Z0-9\-]\<close>, \<^verbatim>\<open>[A-Z]\<close> and \<^verbatim>\<open>[A-Za-z\s&]\<close>.\<close>

definition ws_hash_colon :: "jschar \<Rightarrow> bool" where
  "ws_hash_colon c = (is_ws c \<or> c = ch CHR ''#'' \<or> c = ch CHR '':'')"

definition dot_ws_hash_colon :: "jschar \<Rightarrow> bool" where
  "dot_ws_hash_colon c = (c = ch CHR ''.'' \<or> is_ws c \<or> c = ch CHR ''#'' \<or> c = ch CHR '':'')"

definition ws_colon :: "jschar \<Rightarrow> bool" where
  "ws_colon c = (is_ws c \<or> c = ch CHR '':'')"

definition bill_char :: "jschar \<Rightarrow> bool" where
  "bill_char c = (upper_az c \<or> lower_az c \<or> digit c \<or> c = ch CHR ''-'')"

definition letter :: "jschar \<Rightarrow> bool" where
  "letter c = (upper_az c \<or> lower_az c)"

definition name_char :: "jschar \<Rightarrow> bool" where
  "name_char c = (upper_az c \<or> lower_az c \<or> is_ws c \<or> c = ch CHR ''&'')"

text \<open>The classes \<^verbatim>\<open>[\/\-]\<close>, \<^verbatim>\<open>[\d,]\<close> and the currency class of the rupee sign
  (U+20B9) and the dollar sign.\<close>

definition date_sep :: "jschar \<Rightarrow> bool" where
  "date_sep c = (c = ch CHR ''/'' \<or> c = ch CHR ''-'')"

definition digit_comma :: "jschar \<Rightarrow> bool" where
  "digit_comma c = (digit c \<or> c = ch CHR '','')"

definition currency :: "jschar \<Rightarrow> bool" where
  "currency c = (c = 8377 \<or> c = ch CHR ''$'')"

definition billNoPatterns :: "re list" where
  "billNoPatterns =
     [ seqs [alts [lit_i ''Invoice'', lit_i ''Bill'', lit_i ''INV''], many ws_hash_colon,
             lit_i ''No'', many dot_ws_hash_colon, Cap (many1 bill_char)],
       seqs [alts [lit_i ''Invoice'', lit_i ''Bill''], many ws_hash_colon,
             Cap (Rep True 4 None bill_char)],
       seqs [lit_i ''No'', many dot_ws_hash_colon, Cap (many1 bill_char)] ]"

definition datePatterns :: "re list" where
  "datePatterns =
     [ seqs [alts [lit_i ''Date'', seqs [lit_i ''Date'', maybe (ci (ch CHR ''d''))]],
             many ws_colon,
             Cap (seqs [Rep True 1 (Some 2) digit, Chr date_sep, Rep True 1 (Some 2) digit,
                        Chr date_sep, Rep True 2 (Some 4) digit])],
       Cap (seqs [Rep True 1 (Some 2) digit, Chr date_sep, Rep True 1 (Some 2) digit,
                  Chr date_sep, Rep True 2 (Some 4) digit]),
       Cap (seqs [Rep True 4 (Some 4) digit, Chr date_sep, Rep True 1 (Some 2) digit,
                  Chr date_sep, Rep True 1 (Some 2) digit]) ]"

definition customer_tail :: "re" where
  "customer_tail =
     seqs [many1 ws_colon,
           Cap (seqs [Chr letter, Rep False 1 None name_char]),
           alts [Chr (\<lambda>c. c = 10), lit_i ''GST'', lit_i ''Date'', lit_i ''Invoice'',
                 lit_i ''Total'', End]]"

definition customerPatterns :: "re list" where
  "customerPatterns =
     [ seqs [alts [lit_i ''To'', lit_i ''Customer'',
                   seqs [lit_i ''Bill'', many is_ws, lit_i ''To'']], customer_tail],
       seqs [lit_i ''Customer'', many is_ws, lit_i ''Name'', customer_tail] ]"

text \<open>The common end \<^verbatim>\<open>[\s:]*[R$]?[\s]*([\d,]+\.?\d*)\<close> of the amount patterns, and the
  number \<^verbatim>\<open>([\d,]+\.?\d*)\<close> itself.\<close>

definition number_re :: "re" where
  "number_re = seqs [many1 digit_comma, maybe (\<lambda>c. c = ch CHR ''.''), many digit]"

definition amount_tail :: "re" where
  "amount_tail = seqs [many ws_colon, maybe currency, many is_ws, Cap number_re]"

definition gstPatterns :: "re list" where
  "gstPatterns =
     [ seqs [alts [lit_i ''GST'', lit_i ''Tax''], amount_tail],
       seqs [lit_i ''GST'', many is_ws, lit_i ''Amount'', amount_tail] ]"

definition totalPatterns :: "re list" where
  "totalPatterns =
     [ seqs [alts [lit_i ''Total'', seqs [lit_i ''Grand'', many is_ws, lit_i ''Total''],
                   seqs [lit_i ''Amount'', many is_ws, lit_i ''Payable'']], amount_tail],
       seqs [lit_i ''Total'', many is_ws, lit_i ''Amount'', amount_tail] ]"

text \<open>The pattern \<^verbatim>\<open>/[R$]?[\s]*([\d,]+\.?\d*)/g\<close> of the numbers of the text.\<close>

definition numbers_re :: "re" where
  "numbers_re = seqs [maybe currency, many is_ws, Cap number_re]"

subsection \<open>Strings and numbers\<close>

text \<open>\<^verbatim>\<open>s.split(/[\/\-]/)\<close>: the parts of \<open>s\<close> between the characters of the class.\<close>

fun split_on :: "(jschar \<Rightarrow> bool) \<Rightarrow> jsstring \<Rightarrow> jsstring list" where
  "split_on p [] = [[]]"
| "split_on p (x # xs) =
     (if p x then [] # split_on p xs
      else (case split_on p xs of y # ys \<Rightarrow> (x # y) # ys | [] \<Rightarrow> [[x]]))"

definition padStart :: "nat \<Rightarrow> jschar \<Rightarrow> jsstring \<Rightarrow> jsstring" where
  "padStart n c s = replicate (n - length s) c @ s"

text \<open>
  The numbers of the total fallback are written in the text as decimals without sign or
  exponent. A decimal \<open>(m, k)\<close> stands for \<open>m / 10 ^ k\<close>. JavaScript rounds the parsed value
  to a double and prints the shortest decimal that reads back as that double; both steps
  are the identity on decimals of at most 15 significant digits that are zero or at least
  \<open>10\<^sup>-\<^sup>6\<close>, which is the range this model is exact on.
\<close>

type_synonym decimal = "nat \<times> nat"

definition digits_value :: "jsstring \<Rightarrow> nat" where
  "digits_value ds = foldl (\<lambda>a c. 10 * a + (c - 48)) 0 ds"

text \<open>
  \<^verbatim>\<open>parseFloat\<close> on a string without sign, exponent or \<^verbatim>\<open>Infinity\<close>: leading white space
  is skipped, then the longest prefix of the form digits, optional dot, digits is read;
  \<open>None\<close> is \<^verbatim>\<open>NaN\<close>.
\<close>

definition parseFloat :: "jsstring \<Rightarrow> decimal option" where
  "parseFloat s =
     (let t = dropWhile is_ws s;
          ip = takeWhile digit t;
          r = dropWhile digit t;
          fp = (case r of [] \<Rightarrow> [] | c # r' \<Rightarrow> if c = ch CHR ''.'' then takeWhile digit r' else [])
      in if ip = [] \<and> fp = [] then None
         else Some (digits_value (ip @ fp), length fp))"

definition dec_le :: "decimal \<Rightarrow> decimal \<Rightarrow> bool" where
  "dec_le a b = (fst a * 10 ^ snd b \<le> fst b * 10 ^ snd a)"

text \<open>\<^verbatim>\<open>Math.max(...values)\<close> on a non-empty list of numbers.\<close>

fun Math_max :: "decimal list \<Rightarrow> decimal" where
  "Math_max [] = (0, 0)"
| "Math_max [v] = v"
| "Math_max (v # vs) = (let m = Math_max vs in if dec_le m v then v else m)"

fun nat_digits :: "nat \<Rightarrow> jsstring" where
  "nat_digits n = (if n < 10 then [48 + n] else nat_digits (n div 10) @ [48 + n mod 10])"

declare nat_digits.simps [simp del]

definition strip_trailing_zeros :: "jsstring \<Rightarrow> jsstring" where
  "strip_trailing_zeros ds = rev (dropWhile (\<lambda>c. c = 48) (rev ds))"

text \<open>\<^verbatim>\<open>toString()\<close> of a number: the integer part, then the fraction if it is not zero.\<close>

definition Number_toString :: "decimal \<Rightarrow> jsstring" where
  "Number_toString v =
     (case v of (m, k) \<Rightarrow>
        let ip = nat_digits (m div 10 ^ k);
            fp = strip_trailing_zeros (padStart k 48 (nat_digits (m mod 10 ^ k)))
        in if k = 0 \<or> fp = [] then ip else ip @ [ch CHR ''.''] @ fp)"

subsection \<open>extractBillData\<close>

record BillFields =
  billNo :: jsstring
  date :: jsstring
  customer :: jsstring
  gst :: jsstring
  total :: jsstring

text \<open>
  The loop \<^verbatim>\<open>for (const pattern of patterns) { ... if (match && match[1]) { ...; break } }\<close>:
  the capture of the first pattern that matches with a non-empty group.
\<close>

fun first_capture :: "re list \<Rightarrow> jsstring \<Rightarrow> jsstring option" where
  "first_capture [] text = None"
| "first_capture (p # ps) text =
     (case capture p text of Some c \<Rightarrow> Some c | None \<Rightarrow> first_capture ps text)"

text \<open>
  The date written from the three parts of the matched token. No operation of the
  \<^verbatim>\<open>try\<close> block can throw on strings, so the \<^verbatim>\<open>catch\<close> branch is never taken.
\<close>

definition normalize_date :: "jsstring list \<Rightarrow> jsstring" where
  "normalize_date parts =
     (let p0 = parts ! 0; p1 = parts ! 1; p2 = parts ! 2;
          ymd = (if length p0 = 4
                 then (p0, padStart 2 (ch CHR ''0'') p1, padStart 2 (ch CHR ''0'') p2)
                 else (if length p2 = 2 then js ''20'' @ p2 else p2,
                       padStart 2 (ch CHR ''0'') p1, padStart 2 (ch CHR ''0'') p0))
      in case ymd of (year, month, day) \<Rightarrow> year @ js ''-'' @ month @ js ''-'' @ day)"

text \<open>
  The loop over the date patterns leaves the loop only when the matched token has three
  parts; otherwise the next pattern is tried.
\<close>

fun extract_date :: "re list \<Rightarrow> jsstring \<Rightarrow> jsstring" where
  "extract_date [] text = []"
| "extract_date (p # ps) text =
     (case capture p text of
        Some c \<Rightarrow>
          (let dateStr = trim c; parts = split_on date_sep dateStr
           in if length parts = 3 then normalize_date parts else extract_date ps text)
      | None \<Rightarrow> extract_date ps text)"

text \<open>
  The fallback for the total: the numbers of the text, parsed after the currency signs and
  the commas are removed, \<^verbatim>\<open>NaN\<close> dropped, and the text of the largest of them.
\<close>

definition number_values :: "jsstring \<Rightarrow> decimal list" where
  "number_values txt =
     List.map_filter
       (\<lambda>n. parseFloat (filter (\<lambda>c. \<not> currency c \<and> c \<noteq> ch CHR '','') n))
       (match_all numbers_re 0 txt)"

definition largest_number :: "jsstring \<Rightarrow> jsstring" where
  "largest_number txt =
     (let values = number_values txt
      in if values \<noteq> [] then Number_toString (Math_max values) else [])"

definition extractBillData :: "jsstring \<Rightarrow> BillFields" where
  "extractBillData text =
     (let billNo = (case first_capture billNoPatterns text of Some c \<Rightarrow> trim c | None \<Rightarrow> []);
          date = extract_date datePatterns text;
          customer = (case first_capture customerPatterns text of
                        Some c \<Rightarrow> take 100 (takeWhile (\<lambda>c. c \<noteq> 10) (trim c))
                      | None \<Rightarrow> []);
          gst = (case first_capture gstPatterns text of
                   Some c \<Rightarrow> filter (\<lambda>c. c \<noteq> ch CHR '','') c
                 | None \<Rightarrow> []);
          total = (case first_capture totalPatterns text of
                     Some c \<Rightarrow> filter (\<lambda>c. c \<noteq> ch CHR '','') c
                   | None \<Rightarrow> [])
      in \<lparr> billNo = billNo, date = date, customer = customer, gst = gst,
           total = (if total = [] then largest_number text else total) \<rparr>)"

subsection \<open>extractBillDataWithConfidence\<close>

text \<open>
  A word of the OCR result with its confidence (0 to 100), and the OCR data handed to the
  extraction: the overall confidence is absent when \<open>mergeScanResults\<close> builds the
  argument from the words alone.
\<close>

record OCRWord =
  word_text :: jsstring
  word_confidence :: rat

record OCRData =
  ocr_confidence :: "rat option"
  words :: "OCRWord list"

text \<open>\<^verbatim>\<open>s.includes(sub)\<close>: \<open>sub\<close> occurs in \<open>s\<close> as a contiguous run of characters.\<close>

fun js_includes :: "jsstring \<Rightarrow> jsstring \<Rightarrow> bool" where
  "js_includes [] sub = (sub = [])"
| "js_includes (x # xs) sub = (take (length sub) (x # xs) = sub \<or> js_includes xs sub)"

text \<open>
  The local function \<^verbatim>\<open>getFieldConfidence\<close> of \<open>extractBillDataWithConfidence\<close>.
  \<open>toLowerCase\<close> is \<^verbatim>\<open>String.prototype.toLowerCase\<close>, whose Unicode case tables are not part
  of the repository: it is a parameter of the model. The test
  \<^verbatim>\<open>ocrData.confidence ? ... : 0.5\<close> takes the second branch for an absent confidence and
  for the number 0.
\<close>

definition matchingWords ::
  "(jsstring \<Rightarrow> jsstring) \<Rightarrow> OCRWord list \<Rightarrow> jsstring \<Rightarrow> OCRWord list" where
  "matchingWords toLowerCase ws fieldValue =
     filter (\<lambda>word. js_includes (toLowerCase fieldValue) (toLowerCase (word_text word))
                  \<or> js_includes (toLowerCase (word_text word)) (toLowerCase fieldValue)) ws"

definition fieldConfidence ::
  "(jsstring \<Rightarrow> jsstring) \<Rightarrow> OCRData \<Rightarrow> jsstring \<Rightarrow> rat" where
  "fieldConfidence toLowerCase ocrData fieldValue =
     (if \<not> present fieldValue then 0
      else let matching = matchingWords toLowerCase (words ocrData) fieldValue
           in if length matching = 0
              then (case ocr_confidence ocrData of
                      None \<Rightarrow> 1 / 2
                    | Some c \<Rightarrow> if c = 0 then 1 / 2 else c / 100)
              else (foldl (\<lambda>sum word. sum + word_confidence word) 0 matching
                      / of_nat (length matching)) / 100)"

definition field_of :: "BillFields \<Rightarrow> field_name \<Rightarrow> jsstring" where
  "field_of b f = (case f of BillNo \<Rightarrow> billNo b | Date \<Rightarrow> date b | Customer \<Rightarrow> customer b
                   | Gst \<Rightarrow> gst b | Total \<Rightarrow> total b)"

text \<open>The keys of \<^verbatim>\<open>billData\<close>, \<^verbatim>\<open>fieldConfidences\<close> and \<^verbatim>\<open>merged\<close>, in creation order.\<close>

definition field_keys :: "field_name list" where
  "field_keys = [BillNo, Date, Customer, Gst, Total]"

record Extraction =
  billData :: BillFields
  fieldConfidences :: "field_name \<Rightarrow> rat"

text \<open>
  \<open>extractBillDataWithConfidence\<close> returns the extraction and records every field in the
  ConfidenceModule, whose state is passed in and out.
\<close>

definition extractBillDataWithConfidence ::
  "(jsstring \<Rightarrow> jsstring) \<Rightarrow> ConfidenceModule \<Rightarrow> jsstring \<Rightarrow> OCRData
     \<Rightarrow> Extraction \<times> ConfidenceModule" where
  "extractBillDataWithConfidence toLowerCase cm txt ocrData =
     (let b = extractBillData txt;
          fc = (\<lambda>f. fieldConfidence toLowerCase ocrData (field_of b f))
      in (\<lparr> billData = b, fieldConfidences = fc \<rparr>,
          foldl (\<lambda>m f. setFieldConfidence m f (fc f) (field_of b f)) cm field_keys))"

section \<open>OCRModule: merging the passes of a full scan\<close>

text \<open>
  The object \<^verbatim>\<open>frequency = {}\<close> of \<open>mergeField\<close>. Its own properties are kept in creation
  order. A property holds a count, or, for a key that names a property inherited from
  \<^verbatim>\<open>Object.prototype\<close>, the string that \<^verbatim>\<open>(frequency[v] || 0) + 1\<close> makes of the inherited
  function: \<open>Junk\<close>, which stays a string under further additions and compares false
  with every number.
\<close>

datatype count = Count nat | Junk

type_synonym frequency = "(jsstring \<times> count) list"

definition inherited :: "jsstring list" where
  "inherited = map js [''constructor'', ''__defineGetter__'', ''__defineSetter__'',
     ''hasOwnProperty'', ''__lookupGetter__'', ''__lookupSetter__'', ''isPrototypeOf'',
     ''propertyIsEnumerable'', ''toString'', ''valueOf'', ''toLocaleString'']"

text \<open>
  \<^verbatim>\<open>frequency[v] = (frequency[v] || 0) + 1\<close>. Assigning a string to \<^verbatim>\<open>__proto__\<close> is
  ignored by its setter and creates no property.
\<close>

definition bump :: "frequency \<Rightarrow> jsstring \<Rightarrow> frequency" where
  "bump fr v =
     (case map_of fr v of
        Some (Count n) \<Rightarrow> map (\<lambda>(k, c). if k = v then (k, Count (n + 1)) else (k, c)) fr
      | Some Junk \<Rightarrow> fr
      | None \<Rightarrow> if v = js ''__proto__'' then fr
                else if v \<in> set inherited then fr @ [(v, Junk)]
                else fr @ [(v, Count 1)])"

text \<open>
  \<^verbatim>\<open>Object.keys\<close> lists the keys that are array indices (canonical decimal numerals up to
  \<open>2\<^sup>3\<^sup>2 - 2\<close>) first, in ascending numeric order, and then the other keys in creation
  order.
\<close>

definition is_array_index :: "jsstring \<Rightarrow> bool" where
  "is_array_index k =
     (k \<noteq> [] \<and> list_all digit k \<and> (k = [48] \<or> hd k \<noteq> 48)
      \<and> digits_value k \<le> 4294967294)"

definition Object_keys :: "frequency \<Rightarrow> jsstring list" where
  "Object_keys fr =
     sort_key digits_value (filter is_array_index (map fst fr))
       @ filter (\<lambda>k. \<not> is_array_index k) (map fst fr)"

record MergeInput =
  extraction :: Extraction
  passIndex :: nat
  pass_confidence :: rat

text \<open>
  The second half of \<open>mergeField\<close>: the frequency count of the values and the scan of
  \<^verbatim>\<open>Object.keys(frequency)\<close> for the first key whose count exceeds every count before it.
\<close>

definition most_frequent :: "jsstring list \<Rightarrow> jsstring" where
  "most_frequent vals =
     (let freq = foldl bump [] vals;
          best = foldl
            (\<lambda>(maxFreq, mostFrequent) v.
                case map_of freq v of
                  Some (Count n) \<Rightarrow> if n > maxFreq then (n, v) else (maxFreq, mostFrequent)
                | _ \<Rightarrow> (maxFreq, mostFrequent))
            (0, hd vals) (Object_keys freq)
      in snd best)"

definition mergeField :: "field_name \<Rightarrow> MergeInput list \<Rightarrow> jsstring" where
  "mergeField fieldName extractions =
     (let vals = filter present (map (\<lambda>e. field_of (billData (extraction e)) fieldName) extractions)
      in if length vals = 0 then [] else most_frequent vals)"

record ScanResult =
  result_text :: jsstring
  result_confidence :: rat
  result_words :: "OCRWord list"

record MergedData =
  merged_billData :: BillFields
  merged_fieldConfidences :: "field_name \<Rightarrow> rat"
  overallConfidence :: rat

text \<open>
  The extraction of every pass, in pass order; each one records its fields in the
  ConfidenceModule.
\<close>

fun extract_passes ::
  "(jsstring \<Rightarrow> jsstring) \<Rightarrow> ConfidenceModule \<Rightarrow> nat \<Rightarrow> ScanResult list
     \<Rightarrow> MergeInput list \<times> ConfidenceModule" where
  "extract_passes toLowerCase cm i [] = ([], cm)"
| "extract_passes toLowerCase cm i (r # rs) =
     (case extractBillDataWithConfidence toLowerCase cm (result_text r)
             \<lparr> ocr_confidence = None, words = result_words r \<rparr> of
        (e, cm') \<Rightarrow>
          (case extract_passes toLowerCase cm' (i + 1) rs of
             (es, cm'') \<Rightarrow>
               (\<lparr> extraction = e, passIndex = i, pass_confidence = result_confidence r \<rparr> # es,
                cm'')))"

definition mergeScanResults ::
  "(jsstring \<Rightarrow> jsstring) \<Rightarrow> ConfidenceModule \<Rightarrow> ScanResult list
     \<Rightarrow> MergedData \<times> ConfidenceModule" where
  "mergeScanResults toLowerCase cm results =
     (case extract_passes toLowerCase cm 0 results of
        (allExtractions, cm') \<Rightarrow>
          let merged = \<lparr> billNo = mergeField BillNo allExtractions,
                         date = mergeField Date allExtractions,
                         customer = mergeField Customer allExtractions,
                         gst = mergeField Gst allExtractions,
                         total = mergeField Total allExtractions \<rparr>;
              conf = (\<lambda>f.
                 let vals = filter present
                       (map (\<lambda>e. field_of (billData (extraction e)) f) allExtractions);
                     consistentCount = length (filter (\<lambda>v. v = field_of merged f) vals)
                 in if length vals > 0 then of_nat consistentCount / of_nat (length vals) else 0);
              overall = foldl (\<lambda>sum f. sum + conf f) 0 field_keys / of_nat (length field_keys)
          in (\<lparr> merged_billData = merged, merged_fieldConfidences = conf,
                overallConfidence = overall \<rparr>,
              foldl (\<lambda>m f. setFieldConfidence m f (conf f) (field_of merged f)) cm' field_keys))"

text \<open>The lower case of ASCII letters, an instance of \<open>toLowerCase\<close> on ASCII text.\<close>

definition ascii_lower :: "jsstring \<Rightarrow> jsstring" where
  "ascii_lower s = map (\<lambda>c. if upper_az c then c + 32 else c) s"

section \<open>Notions used to state the properties\<close>

text \<open>
  \<open>re_within P r\<close>: every character that \<open>r\<close> can consume satisfies \<open>P\<close>.
  \<open>keeps_cap r\<close>: \<open>r\<close> has no capture group. \<open>sets_cap P r\<close>: every match of \<open>r\<close> ends
  with the capture group set to a string of characters that satisfy \<open>P\<close>.
\<close>

fun re_within :: "(jschar \<Rightarrow> bool) \<Rightarrow> re \<Rightarrow> bool" where
  "re_within P (Chr p) = (\<forall>c. p c \<longrightarrow> P c)"
| "re_within P (Seq a b) = (re_within P a \<and> re_within P b)"
| "re_within P (Alt a b) = (re_within P a \<and> re_within P b)"
| "re_within P (Rep g lo hi p) = (\<forall>c. p c \<longrightarrow> P c)"
| "re_within P (Cap r) = re_within P r"
| "re_within P Eps = True"
| "re_within P End = True"

fun keeps_cap :: "re \<Rightarrow> bool" where
  "keeps_cap (Seq a b) = (keeps_cap a \<and> keeps_cap b)"
| "keeps_cap (Alt a b) = (keeps_cap a \<and> keeps_cap b)"
| "keeps_cap (Cap r) = False"
| "keeps_cap r = True"

fun sets_cap :: "(jschar \<Rightarrow> bool) \<Rightarrow> re \<Rightarrow> bool" where
  "sets_cap P (Seq a b) = (sets_cap P b \<or> (sets_cap P a \<and> keeps_cap b))"
| "sets_cap P (Alt a b) = (sets_cap P a \<and> sets_cap P b)"
| "sets_cap P (Cap r) = re_within P r"
| "sets_cap P r = False"

definition cap_ok :: "(jschar \<Rightarrow> bool) \<Rightarrow> jsstring option \<Rightarrow> bool" where
  "cap_ok P c = (\<exists>u. c = Some u \<and> list_all P u)"

definition amount_char :: "jschar \<Rightarrow> bool" where
  "amount_char c = (digit c \<or> c = ch CHR '','' \<or> c = ch CHR ''.'')"

text \<open>Passes given by their bill data, for stating examples of \<open>mergeField\<close>.\<close>

definition pass_of :: "BillFields \<Rightarrow> MergeInput" where
  "pass_of b = \<lparr> extraction = \<lparr> billData = b, fieldConfidences = (\<lambda>f. 0) \<rparr>,
                 passIndex = 0, pass_confidence = 1 \<rparr>"


definition pass_values :: "field_name \<Rightarrow> ScanResult list \<Rightarrow> jsstring list" where
  "pass_values f results = map (\<lambda>r. field_of (extractBillData (result_text r)) f) results"

section \<open>Properties of ConfidenceModule\<close>



lemma recorded_covers:
  "dom m \<subseteq> set acc \<Longrightarrow> dom (foldl conf_step m ops) \<subseteq> set (recorded acc ops)"
proof (induction ops arbitrary: m acc)
  case Nil
  then show ?case by simp
next
  case (Cons a ops)
  show ?case
  proof (cases a)
    case (Record f c v)
    have "dom (setFieldConfidence m f c v) \<subseteq> set (f # acc)"
      using Cons.prems by (auto simp: setFieldConfidence_def)
    from Cons.IH [OF this] show ?thesis
      using Record by simp
  next
    case Reset
    have "dom reset \<subseteq> set ([] :: field_name list)"
      by (simp add: reset_def)
    from Cons.IH [OF this] show ?thesis
      using Reset by simp
  qed
qed




text \<open>
  C10: a field that has not been recorded since the last reset (or since the start) reads
  as the default entry: confidence 0, \<open>needsReview\<close> set, status \<open>unknown\<close>, which is none
  of the three statuses a recorded entry can have.
\<close>

theorem getFieldConfidence_unrecorded:
  assumes "f \<notin> set (recorded [] ops)"
  shows "getFieldConfidence (conf_run ops) f
           = \<lparr> confidence = 0, val = None, needsReview = True, status = unknown \<rparr>
       \<and> getFieldConfidence reset f
           = \<lparr> confidence = 0, val = None, needsReview = True, status = unknown \<rparr>
       \<and> unknown \<notin> {high, medium, low}"
proof -
  have "dom (foldl conf_step Map.empty ops) \<subseteq> set (recorded [] ops)"
    by (rule recorded_covers) simp
  with assms have "conf_run ops f = None"
    by (auto simp: conf_run_def)
  then show ?thesis
    by (simp add: getFieldConfidence_def reset_def)
qed

theorem getFieldConfidence_unrecorded_witness:
  "Gst \<notin> set (recorded [] [Record Gst (9 / 10) (js ''18''), Reset, Record Total (1 / 2) (js ''100'')])
   \<and> status (getFieldConfidence
        (conf_run [Record Gst (9 / 10) (js ''18''), Reset, Record Total (1 / 2) (js ''100'')]) Gst)
       = unknown
   \<and> status (getFieldConfidence
        (conf_run [Record Gst (9 / 10) (js ''18''), Reset, Record Total (1 / 2) (js ''100'')]) Total)
       = low"
  using getFieldConfidence_unrecorded
    [of Gst "[Record Gst (9 / 10) (js ''18''), Reset, Record Total (1 / 2) (js ''100'')]"]
  by (simp add: conf_run_def getFieldConfidence_def setFieldConfidence_def reset_def)

section \<open>Properties of ImageQualityModule\<close>

lemma bright_issue_check: "check_of (bright_issue (checkBrightness img)) = 2"
  by (simp add: checkBrightness_def Let_def)

lemma loop_indices_empty: "stop \<le> i \<Longrightarrow> loop_indices i stop step = []"
  by (subst loop_indices.simps) simp

text \<open>
  C7: the verdict is \<open>poor\<close> exactly when one of the five checks fails, which is exactly
  when the report has a non-empty list of issues; that list is in the fixed order of the
  checks (resolution, blur, brightness, contrast, text size) and holds the issue of a
  check exactly when the check fails. The blur check fails when \<open>isBlurry\<close> holds, the
  others when their \<open>adequate\<close> flag is false.
\<close>

theorem analyzeQuality_overall:
  "(overall (analyzeQuality img) = poor) =
     (\<not> res_adequate (checkResolution (width img) (height img))
      \<or> isBlurry (detectBlur img)
      \<or> \<not> bright_adequate (checkBrightness img)
      \<or> \<not> contrast_adequate (checkContrast img)
      \<or> \<not> text_adequate (estimateTextSize (width img) (height img)))
   \<and> (overall (analyzeQuality img) = poor)
       = (\<exists>l. issues (analyzeQuality img) = Some l \<and> l \<noteq> [])
   \<and> (\<forall>l. issues (analyzeQuality img) = Some l \<longrightarrow>
         sorted_wrt (<) (map check_of l)
       \<and> (low_resolution \<in> set l)
           = (\<not> res_adequate (checkResolution (width img) (height img)))
       \<and> (blurry \<in> set l) = isBlurry (detectBlur img)
       \<and> (bright_issue (checkBrightness img) \<in> set l)
           = (\<not> bright_adequate (checkBrightness img))
       \<and> (low_contrast \<in> set l) = (\<not> contrast_adequate (checkContrast img))
       \<and> (text_too_small \<in> set l)
           = (\<not> text_adequate (estimateTextSize (width img) (height img)))
       \<and> list_all (\<lambda>i. i \<in> {low_resolution, blurry, bright_issue (checkBrightness img),
                               low_contrast, text_too_small}) l)"
  using bright_issue_check [of img]
  by (auto simp: analyzeQuality_def Let_def)

theorem analyzeQuality_overall_witness:
  "overall (analyzeQuality \<lparr>width = 1, height = 1, data = [10, 10, 10, 255]\<rparr>) = poor
   \<and> issues (analyzeQuality \<lparr>width = 1, height = 1, data = [10, 10, 10, 255]\<rparr>)
       = Some [low_resolution, too_dark, low_contrast, text_too_small]
   \<and> \<not> isBlurry (detectBlur \<lparr>width = 1, height = 1, data = [10, 10, 10, 255]\<rparr>)
   \<and> \<not> bright_adequate (checkBrightness \<lparr>width = 1, height = 1, data = [10, 10, 10, 255]\<rparr>)"
  using analyzeQuality_overall [of "\<lparr>width = 1, height = 1, data = [10, 10, 10, 255]\<rparr>"]
  by (simp add: analyzeQuality_def detectBlur_def blur_samples_def loop_indices_empty
      num_of_nat_def checkBrightness_def checkContrast_def checkResolution_def
      estimateTextSize_def loop_indices.simps gray_at_def data_at_def)

text \<open>
  C9 at an image of one pixel: the loops of \<open>detectBlur\<close> start at 1 and stop before
  \<open>width - 1\<close> and \<open>height - 1\<close>, so no pixel is sampled, the sample count is 0, and both
  divisions by the count are \<^verbatim>\<open>0 / 0\<close>. The variance is \<open>NaN\<close>, and the report says at once
  that the image is not blurry and that its sharpness is not adequate.
\<close>

theorem detectBlur_one_pixel:
  "blur_samples 1 1 = []
   \<and> variance (detectBlur \<lparr>width = 1, height = 1, data = [10, 10, 10, 255]\<rparr>) = NaN
   \<and> \<not> isBlurry (detectBlur \<lparr>width = 1, height = 1, data = [10, 10, 10, 255]\<rparr>)
   \<and> \<not> blur_adequate (detectBlur \<lparr>width = 1, height = 1, data = [10, 10, 10, 255]\<rparr>)"
  by (simp add: detectBlur_def blur_samples_def loop_indices_empty num_of_nat_def)

section \<open>Properties of the extraction and of the merge\<close>

lemma present_iff: "present s \<longleftrightarrow> (\<exists>c\<in>set s. \<not> is_ws c)"
proof -
  have a: "(\<exists>x\<in>set (dropWhile is_ws s). \<not> is_ws x) \<longleftrightarrow> (\<exists>x\<in>set s. \<not> is_ws x)"
  proof
    assume "\<exists>x\<in>set (dropWhile is_ws s). \<not> is_ws x"
    then show "\<exists>x\<in>set s. \<not> is_ws x" by (meson set_dropWhileD)
  next
    assume "\<exists>x\<in>set s. \<not> is_ws x"
    then have ne: "dropWhile is_ws s \<noteq> []" by (simp add: dropWhile_eq_Nil_conv)
    then have "\<not> is_ws (hd (dropWhile is_ws s))" by (rule hd_dropWhile)
    moreover have "hd (dropWhile is_ws s) \<in> set (dropWhile is_ws s)" using ne by simp
    ultimately show "\<exists>x\<in>set (dropWhile is_ws s). \<not> is_ws x" by blast
  qed
  have "trim s \<noteq> [] \<longleftrightarrow> (\<exists>x\<in>set (dropWhile is_ws s). \<not> is_ws x)"
    by (simp add: trim_def dropWhile_eq_Nil_conv)
  with a show ?thesis by (auto simp: present_def)
qed

lemma trim_prefix: "\<exists>t. dropWhile is_ws s = trim s @ t"
proof -
  have "rev (dropWhile is_ws s) = takeWhile is_ws (rev (dropWhile is_ws s)) @ dropWhile is_ws (rev (dropWhile is_ws s))"
    by simp
  then have "dropWhile is_ws s = rev (dropWhile is_ws (rev (dropWhile is_ws s))) @ rev (takeWhile is_ws (rev (dropWhile is_ws s)))"
    by (metis rev_append rev_rev_ident)
  then show ?thesis by (auto simp: trim_def)
qed

lemma hd_trim: assumes "trim s \<noteq> []" shows "\<not> is_ws (hd (trim s))"
proof -
  obtain t where t: "dropWhile is_ws s = trim s @ t" using trim_prefix by blast
  with assms have ne: "dropWhile is_ws s \<noteq> []" by simp
  have "hd (dropWhile is_ws s) = hd (trim s)" using t assms by simp
  with hd_dropWhile [OF ne] show ?thesis by simp
qed

lemma trim_present: "trim s = [] \<or> present (trim s)"
proof (cases "trim s = []")
  case False
  then have "hd (trim s) \<in> set (trim s)" by simp
  with hd_trim [OF False] show ?thesis by (auto simp: present_iff)
qed simp

lemma is_ws_newline: "is_ws 10" by (simp add: is_ws_def)

lemma customer_present:
  "take 100 (takeWhile (\<lambda>c. c \<noteq> 10) (trim s)) = [] \<or> present (take 100 (takeWhile (\<lambda>c. c \<noteq> 10) (trim s)))"
proof (cases "trim s")
  case Nil
  then show ?thesis by simp
next
  case (Cons x xs)
  then have "\<not> is_ws x" using hd_trim [of s] by simp
  moreover from this have "x \<noteq> 10" using is_ws_newline by auto
  ultimately show ?thesis using Cons by (simp add: present_iff)
qed

lemma nat_digits_digit: "nat_digits n \<noteq> [] \<and> list_all digit (nat_digits n)"
proof (induction n rule: nat_digits.induct)
  case (1 n)
  show ?case
  proof (cases "n < 10")
    case True
    then show ?thesis by (subst nat_digits.simps, subst (2) nat_digits.simps) (simp add: digit_def)
  next
    case False
    have "n mod 10 < 10" by simp
    then have "digit (48 + n mod 10)" unfolding digit_def by linarith
    with 1 False show ?thesis
      by (subst nat_digits.simps, subst (2) nat_digits.simps) simp
  qed
qed

lemma digit_not_ws: "digit c \<Longrightarrow> \<not> is_ws c"
  by (auto simp: digit_def is_ws_def)

lemma Number_toString_present: "present (Number_toString v)"
proof -
  obtain m k where v: "v = (m, k)" by (cases v)
  have "nat_digits (m div 10 ^ k) \<noteq> []" "list_all digit (nat_digits (m div 10 ^ k))"
    using nat_digits_digit by blast+
  then obtain d where "d \<in> set (nat_digits (m div 10 ^ k))" "digit d"
    by (cases "nat_digits (m div 10 ^ k)") auto
  then have "d \<in> set (Number_toString v)" and "\<not> is_ws d"
    by (auto simp: Number_toString_def v Let_def digit_not_ws)
  then have "\<exists>c\<in>set (Number_toString v). \<not> is_ws c"
    by blast
  then show ?thesis by (simp add: present_iff)
qed

lemma largest_number_present: "largest_number t = [] \<or> present (largest_number t)"
  by (simp add: largest_number_def Let_def Number_toString_present)

lemma normalize_date_present: "present (normalize_date parts)"
proof -
  have "45 \<in> set (normalize_date parts)"
    by (simp add: normalize_date_def Let_def js_def split: prod.splits)
  moreover have "\<not> is_ws 45" by (simp add: is_ws_def)
  ultimately show ?thesis unfolding present_iff by blast
qed

lemma extract_date_present: "extract_date ps t = [] \<or> present (extract_date ps t)"
  by (induction ps) (auto simp: Let_def normalize_date_present split: option.splits)

lemma rep_counts_le: "k \<in> set (rep_counts g lo hi run) \<Longrightarrow> k \<le> run"
  by (auto simp: rep_counts_def Let_def split: option.splits if_splits)

lemma rmatch_consumed:
  "re_within P r \<Longrightarrow> (s', c') \<in> set (rmatch r (s, c)) \<Longrightarrow> \<exists>u. s = u @ s' \<and> list_all P u"
proof (induction r arbitrary: s c s' c')
  case (Chr p)
  then show ?case by (cases s) (auto split: if_splits)
next
  case (Seq a b)
  from Seq.prems(2) obtain s1 c1 where
    a: "(s1, c1) \<in> set (rmatch a (s, c))" and b: "(s', c') \<in> set (rmatch b (s1, c1))"
    by auto
  from Seq.IH(1) [OF _ a] Seq.prems(1) obtain u where u: "s = u @ s1" "list_all P u" by auto
  from Seq.IH(2) [OF _ b] Seq.prems(1) obtain v where v: "s1 = v @ s'" "list_all P v" by auto
  from u v have "s = (u @ v) @ s'" "list_all P (u @ v)" by auto
  then show ?case by blast
next
  case (Alt a b)
  then show ?case by auto
next
  case (Rep g lo hi p)
  from Rep.prems(2) obtain k where k: "k \<in> set (rep_counts g lo hi (length (takeWhile p s)))"
    and s': "s' = drop k s" by auto
  have kl: "k \<le> length (takeWhile p s)" using rep_counts_le [OF k] .
  have "take k s = take k (takeWhile p s)"
    by (metis kl append_eq_conv_conj takeWhile_dropWhile_id take_append take_all
        append_take_drop_id length_take min.absorb2 diff_is_0_eq' take_0 append_Nil2)
  moreover have "list_all p (takeWhile p s)"
    by (simp add: list_all_iff) (meson set_takeWhileD)
  ultimately have "list_all p (take k s)"
    by (metis list_all_iff in_set_takeD)
  with Rep.prems(1) have "list_all P (take k s)" by (auto simp: list_all_iff)
  moreover have "s = take k s @ s'" using s' by simp
  ultimately show ?case by blast
next
  case (Cap r)
  then show ?case by auto
next
  case Eps
  then show ?case by auto
next
  case End
  then show ?case by (auto split: if_splits)
qed

lemma rmatch_keeps:
  "keeps_cap r \<Longrightarrow> (s', c') \<in> set (rmatch r (s, c)) \<Longrightarrow> c' = c"
proof (induction r arbitrary: s c s' c')
  case (Seq a b)
  from Seq.prems(2) obtain s1 c1 where
    a: "(s1, c1) \<in> set (rmatch a (s, c))" and b: "(s', c') \<in> set (rmatch b (s1, c1))"
    by auto
  from Seq.prems(1) have "c1 = c" "c' = c1"
    using Seq.IH(1) [OF _ a] Seq.IH(2) [OF _ b] by auto
  then show ?case by simp
qed (auto split: list.splits if_splits)

lemma rmatch_sets:
  "sets_cap P r \<Longrightarrow> (s', c') \<in> set (rmatch r (s, c)) \<Longrightarrow> cap_ok P c'"
proof (induction r arbitrary: s c s' c')
  case (Seq a b)
  from Seq.prems(2) obtain s1 c1 where
    a: "(s1, c1) \<in> set (rmatch a (s, c))" and b: "(s', c') \<in> set (rmatch b (s1, c1))"
    by auto
  from Seq.prems(1) consider "sets_cap P b" | "sets_cap P a" "keeps_cap b" by auto
  then show ?case
  proof cases
    case 1
    then show ?thesis using Seq.IH(2) b by blast
  next
    case 2
    then have "cap_ok P c1" using Seq.IH(1) a by blast
    moreover have "c' = c1" using rmatch_keeps [OF 2(2) b] .
    ultimately show ?thesis by simp
  qed
next
  case (Alt a b)
  then show ?case by auto
next
  case (Cap r)
  from Cap.prems(2) obtain c0 where r: "(s', c0) \<in> set (rmatch r (s, c))"
    and c': "c' = Some (take (length s - length s') s)" by auto
  from rmatch_consumed [OF _ r] Cap.prems(1) obtain u where "s = u @ s'" "list_all P u" by auto
  then show ?case by (simp add: cap_ok_def c')
qed auto

lemma match_here_sets:
  "sets_cap P r \<Longrightarrow> match_here r s = Some (m, c) \<Longrightarrow> cap_ok P c"
  by (auto simp: match_here_def split: list.splits dest!: rmatch_sets [where s = s and c = None]
      intro: list.set_intros)

lemma search_sets:
  "sets_cap P r \<Longrightarrow> search r s = Some (m, c) \<Longrightarrow> cap_ok P c"
  by (induction s) (auto split: option.splits dest: match_here_sets)

lemma capture_sets: "sets_cap P r \<Longrightarrow> capture r t = Some c \<Longrightarrow> list_all P c"
  by (auto simp: capture_def cap_ok_def split: option.splits if_splits dest!: search_sets)

lemma first_capture_sets:
  "list_all (sets_cap P) ps \<Longrightarrow> first_capture ps t = Some c \<Longrightarrow> list_all P c"
  by (induction ps) (auto split: option.splits dest: capture_sets)

lemma amount_tail_sets: "sets_cap amount_char amount_tail"
  by (simp add: amount_tail_def number_re_def seqs_def many_def many1_def maybe_def
      amount_char_def digit_comma_def)

lemma gstPatterns_sets: "list_all (sets_cap amount_char) gstPatterns"
  by (simp add: gstPatterns_def seqs_def amount_tail_sets)

lemma totalPatterns_sets: "list_all (sets_cap amount_char) totalPatterns"
  by (simp add: totalPatterns_def seqs_def amount_tail_sets)

lemma amount_present:
  assumes "list_all amount_char c"
  shows "filter (\<lambda>c. c \<noteq> ch CHR '','') c = [] \<or> present (filter (\<lambda>c. c \<noteq> ch CHR '','') c)"
proof (cases "filter (\<lambda>c. c \<noteq> ch CHR '','') c")
  case Nil
  then show ?thesis by simp
next
  case (Cons x xs)
  then have "x \<in> set (filter (\<lambda>c. c \<noteq> ch CHR '','') c)" by simp
  then have "amount_char x" "x \<noteq> ch CHR '',''"
    using assms by (auto simp: list_all_iff)
  then have "\<not> is_ws x"
    by (auto simp: amount_char_def digit_def is_ws_def ch_def)
  then show ?thesis using Cons by (auto simp: present_iff)
qed

lemma extracted_present:
  "field_of (extractBillData t) f = [] \<or> present (field_of (extractBillData t) f)"
proof (cases f)
  case BillNo
  then show ?thesis
    using trim_present by (auto simp: field_of_def extractBillData_def Let_def split: option.splits)
next
  case Date
  then show ?thesis
    using extract_date_present by (simp add: field_of_def extractBillData_def Let_def)
next
  case Customer
  then show ?thesis
    using customer_present
    by (auto simp: field_of_def extractBillData_def Let_def split: option.splits)
next
  case Gst
  then show ?thesis
    using amount_present [OF first_capture_sets [OF gstPatterns_sets]]
    by (auto simp: field_of_def extractBillData_def Let_def split: option.splits)
next
  case Total
  then show ?thesis
    using amount_present [OF first_capture_sets [OF totalPatterns_sets]]
      largest_number_present [of t]
    by (auto simp: field_of_def extractBillData_def Let_def split: option.splits)
qed

lemma extracted_present_iff:
  "present (field_of (extractBillData t) f) \<longleftrightarrow> field_of (extractBillData t) f \<noteq> []"
  using extracted_present [of t f] by (auto simp: present_def)

lemma extract_passes_values:
  "map (\<lambda>e. field_of (billData (extraction e)) f) (fst (extract_passes lc cm i rs))
     = pass_values f rs"
proof (induction rs arbitrary: cm i)
  case Nil
  then show ?case by (simp add: pass_values_def)
next
  case (Cons r rs)
  obtain e cm1 where e: "extractBillDataWithConfidence lc cm (result_text r)
      \<lparr> ocr_confidence = None, words = result_words r \<rparr> = (e, cm1)"
    by (cases "extractBillDataWithConfidence lc cm (result_text r)
      \<lparr> ocr_confidence = None, words = result_words r \<rparr>")
  obtain es cm2 where es: "extract_passes lc cm1 (i + 1) rs = (es, cm2)"
    by (cases "extract_passes lc cm1 (i + 1) rs")
  have "billData e = extractBillData (result_text r)"
    using e by (auto simp: extractBillDataWithConfidence_def Let_def)
  moreover have "map (\<lambda>e. field_of (billData (extraction e)) f) es = pass_values f rs"
    using Cons.IH [of cm1 "i + 1"] es by simp
  ultimately show ?case
    using e es by (simp add: pass_values_def)
qed

lemma bump_keys: "fst ` set (bump fr v) \<subseteq> insert v (fst ` set fr)"
  by (auto simp: bump_def split: option.splits count.splits if_splits)

lemma foldl_bump_keys: "fst ` set (foldl bump fr vs) \<subseteq> fst ` set fr \<union> set vs"
proof (induction vs arbitrary: fr)
  case (Cons v vs)
  show ?case using Cons [of "bump fr v"] bump_keys [of fr v] by auto
qed simp

lemma Object_keys_subset: "set (Object_keys fr) \<subseteq> fst ` set fr"
  by (auto simp: Object_keys_def)

lemma best_member:
  "snd (foldl (\<lambda>(maxFreq, mostFrequent) v.
          case map_of freq v of
            Some (Count n) \<Rightarrow> if n > maxFreq then (n, v) else (maxFreq, mostFrequent)
          | _ \<Rightarrow> (maxFreq, mostFrequent)) (m, v0) ks) \<in> insert v0 (set ks)"
proof (induction ks arbitrary: m v0)
  case (Cons k ks)
  show ?case
    using Cons [of m v0] Cons [of _ k]
    by (auto split: option.splits count.splits)
qed simp

lemma mergeField_member:
  assumes "filter present (map (\<lambda>e. field_of (billData (extraction e)) f) es) \<noteq> []"
  shows "mergeField f es \<in> set (filter present (map (\<lambda>e. field_of (billData (extraction e)) f) es))"
proof -
  define vals where "vals = filter present (map (\<lambda>e. field_of (billData (extraction e)) f) es)"
  have ne: "vals \<noteq> []" using assms by (simp add: vals_def)
  have "set (Object_keys (foldl bump [] vals)) \<subseteq> set vals"
    using Object_keys_subset [of "foldl bump [] vals"] foldl_bump_keys [of "[]" vals] by auto
  moreover have "hd vals \<in> set vals" using ne by simp
  ultimately have "mergeField f es \<in> set vals"
    using best_member [of "foldl bump [] vals" 0 "hd vals" "Object_keys (foldl bump [] vals)"] ne
    by (auto simp: mergeField_def most_frequent_def Let_def vals_def [symmetric])
  then show ?thesis by (simp add: vals_def)
qed

lemma mergeField_empty:
  "filter present (map (\<lambda>e. field_of (billData (extraction e)) f) es) = [] \<Longrightarrow> mergeField f es = []"
  by (simp add: mergeField_def Let_def)

lemma Object_keys_single: "Object_keys [(v, c)] = [v]"
  by (simp add: Object_keys_def)

lemma mergeField_single:
  "mergeField f [e] = (if present (field_of (billData (extraction e)) f)
                       then field_of (billData (extraction e)) f else [])"
  by (auto simp: mergeField_def most_frequent_def Let_def bump_def Object_keys_single
      Object_keys_def)

lemma present_values:
  "filter present (pass_values f rs) = filter (\<lambda>v. v \<noteq> []) (pass_values f rs)"
  unfolding pass_values_def filter_map
  by (rule arg_cong [where f = "map _"], rule filter_cong) (auto simp: extracted_present_iff)

lemma field_of_merged:
  "field_of \<lparr> billNo = g BillNo, date = g Date, customer = g Customer, gst = g Gst,
              total = g Total \<rparr> f = g f"
  by (cases f) (simp_all add: field_of_def)

lemma overall_sum:
  "foldl (\<lambda>sum f. sum + (c f :: rat)) 0 field_keys / of_nat (length field_keys)
     = (c BillNo + c Date + c Customer + c Gst + c Total) / 5"
  by (simp add: field_keys_def)

lemma mergeScanResults_open:
  assumes "extract_passes lc cm 0 results = (es, cm1)"
  defines "M \<equiv> \<lparr> billNo = mergeField BillNo es, date = mergeField Date es,
      customer = mergeField Customer es, gst = mergeField Gst es, total = mergeField Total es \<rparr>"
  defines "vals \<equiv> \<lambda>f. filter present (map (\<lambda>e. field_of (billData (extraction e)) f) es)"
  defines "C \<equiv> \<lambda>f. if length (vals f) > 0
      then of_nat (length (filter (\<lambda>v. v = mergeField f es) (vals f))) / of_nat (length (vals f))
      else (0::rat)"
  shows "fst (mergeScanResults lc cm results)
    = \<lparr> merged_billData = M, merged_fieldConfidences = C,
        overallConfidence = (C BillNo + C Date + C Customer + C Gst + C Total) / 5 \<rparr>"
proof -
  have fm: "field_of M g = mergeField g es" for g
    unfolding M_def using field_of_merged [where g = "\<lambda>x. mergeField x es"] by simp
  have "fst (mergeScanResults lc cm results)
    = \<lparr> merged_billData = M,
        merged_fieldConfidences = (\<lambda>f. if length (vals f) > 0
          then of_nat (length (filter (\<lambda>v. v = field_of M f) (vals f))) / of_nat (length (vals f))
          else 0),
        overallConfidence = foldl (\<lambda>sum f. sum + (if length (vals f) > 0
          then of_nat (length (filter (\<lambda>v. v = field_of M f) (vals f))) / of_nat (length (vals f))
          else 0)) 0 field_keys / of_nat (length field_keys) \<rparr>"
    unfolding mergeScanResults_def assms(1) prod.case Let_def fst_conv M_def vals_def ..
  then show ?thesis
    by (simp only: fm overall_sum C_def)
qed

text \<open>
  C4: for every list of passes and every field, the confidence after the merge is the
  number of passes whose extracted value equals the winning value, divided by the number
  of passes whose extracted value is not empty, and 0 when every pass left the field
  empty; the overall confidence is the mean of the five field confidences. The winning
  value is the field of the merged bill data, computed by \<open>mergeField\<close>.
\<close>

theorem mergeScanResults_confidence:
  assumes "mergeScanResults lc cm results = (md, cm')"
  shows "field_of (merged_billData md) f = mergeField f (fst (extract_passes lc cm 0 results))
    \<and> merged_fieldConfidences md f =
        (if list_all (\<lambda>v. v = []) (pass_values f results) then 0
         else of_nat (length (filter (\<lambda>v. v = field_of (merged_billData md) f)
                                (pass_values f results)))
              / of_nat (length (filter (\<lambda>v. v \<noteq> []) (pass_values f results))))
    \<and> overallConfidence md =
        (merged_fieldConfidences md BillNo + merged_fieldConfidences md Date
         + merged_fieldConfidences md Customer + merged_fieldConfidences md Gst
         + merged_fieldConfidences md Total) / 5"
proof -
  obtain es cm1 where es: "extract_passes lc cm 0 results = (es, cm1)"
    by (cases "extract_passes lc cm 0 results")
  define w where "w = mergeField f es"
  define vals where "vals = filter present (map (\<lambda>e. field_of (billData (extraction e)) f) es)"
  have md: "md = fst (mergeScanResults lc cm results)"
    using assms by simp
  note opened = mergeScanResults_open [OF es, folded md]
  have pv: "map (\<lambda>e. field_of (billData (extraction e)) f) es = pass_values f results"
    using extract_passes_values [of f lc cm 0 results] es by simp
  have vals: "vals = filter (\<lambda>v. v \<noteq> []) (pass_values f results)"
    by (simp only: vals_def pv present_values)
  have merged: "field_of (merged_billData md) f = w"
    unfolding opened w_def using field_of_merged [where g = "\<lambda>x. mergeField x es"] by simp
  have conf: "merged_fieldConfidences md f =
      (if length vals > 0 then of_nat (length (filter (\<lambda>v. v = w) vals)) / of_nat (length vals)
       else 0)"
    unfolding opened w_def vals_def by simp
  have overall: "overallConfidence md =
        (merged_fieldConfidences md BillNo + merged_fieldConfidences md Date
         + merged_fieldConfidences md Customer + merged_fieldConfidences md Gst
         + merged_fieldConfidences md Total) / 5"
    unfolding opened by simp
  have empty: "vals = [] \<longleftrightarrow> list_all (\<lambda>v. v = []) (pass_values f results)"
    unfolding vals by (auto simp: filter_empty_conv list_all_iff)
  have count: "length (filter (\<lambda>v. v = w) vals)
      = length (filter (\<lambda>v. v = w) (pass_values f results))" if "vals \<noteq> []"
  proof -
    have "w \<in> set vals"
      using mergeField_member [of f es] that unfolding w_def vals_def by blast
    then have "w \<noteq> []" unfolding vals by simp
    then have "filter (\<lambda>v. v = w) vals = filter (\<lambda>v. v = w) (pass_values f results)"
      unfolding vals filter_filter by (intro filter_cong) auto
    then show ?thesis by simp
  qed
  have "merged_fieldConfidences md f =
        (if list_all (\<lambda>v. v = []) (pass_values f results) then 0
         else of_nat (length (filter (\<lambda>v. v = w) (pass_values f results)))
              / of_nat (length (filter (\<lambda>v. v \<noteq> []) (pass_values f results))))"
  proof (cases "vals = []")
    case True
    then show ?thesis using conf empty by simp
  next
    case False
    then show ?thesis using conf empty count [OF False] vals by simp
  qed
  then show ?thesis
    using merged overall es by (simp add: w_def)
qed

text \<open>
  C3: merging the single pass \<open>[R]\<close> gives the bill data extracted from the text of \<open>R\<close>,
  with confidence 1 for every field whose extracted value is not empty and 0 for every
  field left empty.
\<close>

theorem mergeScanResults_single:
  assumes "mergeScanResults lc cm [R] = (md, cm')"
  shows "merged_billData md = extractBillData (result_text R)
    \<and> merged_fieldConfidences md f
        = (if field_of (extractBillData (result_text R)) f \<noteq> [] then 1 else 0)"
proof -
  obtain e cm1 where e: "extractBillDataWithConfidence lc cm (result_text R)
      \<lparr> ocr_confidence = None, words = result_words R \<rparr> = (e, cm1)"
    by (cases "extractBillDataWithConfidence lc cm (result_text R)
      \<lparr> ocr_confidence = None, words = result_words R \<rparr>")
  define b where "b = extractBillData (result_text R)"
  have be: "billData e = b"
    using e by (auto simp: extractBillDataWithConfidence_def Let_def b_def)
  have mf: "mergeField g [\<lparr> extraction = e, passIndex = 0, pass_confidence = result_confidence R \<rparr>]
      = field_of b g" for g
    using extracted_present [of "result_text R" g]
    by (auto simp: mergeField_single be b_def present_def)
  have merged: "merged_billData md = b"
    using assms e by (auto simp: mergeScanResults_def Let_def mf field_of_def)
  have "merged_fieldConfidences md f = (if present (field_of b f) then 1 else 0)"
    using assms e
    by (auto simp: mergeScanResults_def Let_def mf be field_of_merged [where g = "field_of b"])
  then show ?thesis
    using merged by (simp add: b_def extracted_present_iff)
qed

section \<open>The claims about extraction and merge\<close>

lemmas re_eval = seqs_def lit_i_def js_def ci_def upper_az_def lower_az_def rep_counts_def
  digit_def date_sep_def ch_def upt_rec many_def many1_def maybe_def ws_colon_def is_ws_def
  match_here_def capture_def ws_hash_colon_def dot_ws_hash_colon_def bill_char_def letter_def
  name_char_def digit_comma_def currency_def number_re_def amount_tail_def numbers_re_def
  customer_tail_def

lemma billNo_extract:
  "billNo (extractBillData t)
     = (case first_capture billNoPatterns t of Some c \<Rightarrow> trim c | None \<Rightarrow> [])"
  by (simp add: extractBillData_def Let_def)

lemma date_extract: "date (extractBillData t) = extract_date datePatterns t"
  by (simp add: extractBillData_def Let_def)

lemma gst_extract:
  "gst (extractBillData t) = (case first_capture gstPatterns t of
      Some c \<Rightarrow> filter (\<lambda>c. c \<noteq> ch CHR '','') c | None \<Rightarrow> [])"
  by (simp add: extractBillData_def Let_def)

lemma total_extract:
  "total (extractBillData t) = (case first_capture totalPatterns t of
      Some c \<Rightarrow> if filter (\<lambda>c. c \<noteq> ch CHR '','') c \<noteq> []
                then filter (\<lambda>c. c \<noteq> ch CHR '','') c else largest_number t
    | None \<Rightarrow> largest_number t)"
  by (simp add: extractBillData_def Let_def split: option.splits)

subsection \<open>Texts of the examples\<close>

lemma date_token_labelled:
  "first_capture datePatterns (js ''Date: 25/12/2024'') = Some (js ''25/12/2024'')"
  by (simp add: datePatterns_def re_eval)

lemma date_token_bare:
  "first_capture datePatterns (js ''2024-1-5'') = Some (js ''2024-1-5'')"
  by (simp add: datePatterns_def re_eval)

lemma date_parts_labelled:
  "split_on date_sep (trim (js ''25/12/2024'')) = [js ''25'', js ''12'', js ''2024'']"
  by (simp add: trim_def js_def is_ws_def date_sep_def ch_def)

lemma date_parts_bare:
  "split_on date_sep (trim (js ''2024-1-5'')) = [js ''2024'', js ''1'', js ''5'']"
  by (simp add: trim_def js_def is_ws_def date_sep_def ch_def)






lemma total_100: "total (extractBillData (js ''Total 100'')) = js ''100''"
  by (simp add: total_extract totalPatterns_def re_eval)

lemma total_200: "total (extractBillData (js ''Total 200'')) = js ''200''"
  by (simp add: total_extract totalPatterns_def re_eval)

lemma total_7: "total (extractBillData (js ''Total 7'')) = js ''7''"
  by (simp add: total_extract totalPatterns_def re_eval)

lemma gst_7: "gst (extractBillData (js ''Total 7'')) = []"
  by (simp add: gst_extract gstPatterns_def re_eval)

lemma billNo_A1: "billNo (extractBillData (js ''Invoice No: A1'')) = js ''A1''"
  by (simp add: billNo_extract billNoPatterns_def re_eval trim_def)

subsection \<open>mergeField\<close>

text \<open>
  C1 on two inputs. Totals \<open>"200"\<close> and \<open>"100"\<close>, once each: both are array indices, so
  \<^verbatim>\<open>Object.keys(frequency)\<close> lists \<open>"100"\<close> first and \<open>"100"\<close> wins the tie, although \<open>"200"\<close>
  comes from the earlier pass. Customers \<open>"constructor"\<close> twice and \<open>"Ravi"\<close> once: the
  count of \<open>"constructor"\<close> starts from the function inherited from \<^verbatim>\<open>Object.prototype\<close> and
  is not a number, so \<open>"Ravi"\<close> wins although it is the less frequent value.
\<close>

theorem mergeField_key_order:
  "mergeField Total
     [pass_of \<lparr>billNo = [], date = [], customer = [], gst = [], total = js ''200''\<rparr>,
      pass_of \<lparr>billNo = [], date = [], customer = [], gst = [], total = js ''100''\<rparr>]
     = js ''100''
   \<and> mergeField Customer
     [pass_of \<lparr>billNo = [], date = [], customer = js ''constructor'', gst = [], total = []\<rparr>,
      pass_of \<lparr>billNo = [], date = [], customer = js ''constructor'', gst = [], total = []\<rparr>,
      pass_of \<lparr>billNo = [], date = [], customer = js ''Ravi'', gst = [], total = []\<rparr>]
     = js ''Ravi''"
  by (simp add: mergeField_def most_frequent_def pass_of_def field_of_def present_def trim_def
      is_ws_def js_def bump_def inherited_def Object_keys_def is_array_index_def digit_def
      digits_value_def)

subsection \<open>Single pass and majority vote\<close>

theorem mergeScanResults_single_witness:
  "total (merged_billData (fst (mergeScanResults ascii_lower Map.empty
      [\<lparr>result_text = js ''Total 7'', result_confidence = 9 / 10, result_words = []\<rparr>])))
     = js ''7''
   \<and> merged_fieldConfidences (fst (mergeScanResults ascii_lower Map.empty
      [\<lparr>result_text = js ''Total 7'', result_confidence = 9 / 10, result_words = []\<rparr>])) Total
     = 1
   \<and> merged_fieldConfidences (fst (mergeScanResults ascii_lower Map.empty
      [\<lparr>result_text = js ''Total 7'', result_confidence = 9 / 10, result_words = []\<rparr>])) Gst
     = 0"
  using mergeScanResults_single [OF surjective_pairing, of ascii_lower Map.empty
      "\<lparr>result_text = js ''Total 7'', result_confidence = 9 / 10, result_words = []\<rparr>" Total]
    mergeScanResults_single [OF surjective_pairing, of ascii_lower Map.empty
      "\<lparr>result_text = js ''Total 7'', result_confidence = 9 / 10, result_words = []\<rparr>" Gst]
  apply (simp add: field_of_def total_7 gst_7)
  apply (simp add: js_def)
  done

lemma mergeField_passes:
  "mergeField f (fst (extract_passes lc cm i rs))
     = (if filter present (pass_values f rs) = [] then []
        else most_frequent (filter present (pass_values f rs)))"
  by (simp only: mergeField_def Let_def extract_passes_values length_0_conv)

lemma present_totals:
  "filter present [js ''100'', js ''100'', js ''200''] = [js ''100'', js ''100'', js ''200'']"
  by (simp add: present_def trim_def is_ws_def js_def)

lemma most_frequent_totals: "most_frequent [js ''100'', js ''100'', js ''200''] = js ''100''"
  by (simp add: most_frequent_def js_def bump_def inherited_def
      Object_keys_def is_array_index_def digit_def digits_value_def)

theorem mergeScanResults_confidence_witness:
  "total (merged_billData (fst (mergeScanResults ascii_lower Map.empty
      [\<lparr>result_text = js ''Total 100'', result_confidence = 9 / 10, result_words = []\<rparr>,
       \<lparr>result_text = js ''Total 100'', result_confidence = 8 / 10, result_words = []\<rparr>,
       \<lparr>result_text = js ''Total 200'', result_confidence = 7 / 10, result_words = []\<rparr>])))
     = js ''100''
   \<and> merged_fieldConfidences (fst (mergeScanResults ascii_lower Map.empty
      [\<lparr>result_text = js ''Total 100'', result_confidence = 9 / 10, result_words = []\<rparr>,
       \<lparr>result_text = js ''Total 100'', result_confidence = 8 / 10, result_words = []\<rparr>,
       \<lparr>result_text = js ''Total 200'', result_confidence = 7 / 10, result_words = []\<rparr>])) Total
     = 2 / 3"
proof -
  define rs where "rs =
      [\<lparr>result_text = js ''Total 100'', result_confidence = 9 / 10, result_words = []\<rparr>,
       \<lparr>result_text = js ''Total 100'', result_confidence = 8 / 10, result_words = []\<rparr>,
       \<lparr>result_text = js ''Total 200'', result_confidence = 7 / 10, result_words = []\<rparr>]"
  define md where "md = fst (mergeScanResults ascii_lower Map.empty rs)"
  have pv: "pass_values Total rs = [js ''100'', js ''100'', js ''200'']"
    by (simp add: rs_def pass_values_def field_of_def total_100 total_200)
  have w: "mergeField Total (fst (extract_passes ascii_lower Map.empty 0 rs)) = js ''100''"
    by (simp only: mergeField_passes pv present_totals most_frequent_totals) simp
  have ne: "js ''100'' \<noteq> []" "js ''200'' \<noteq> []" "js ''200'' \<noteq> js ''100''"
    by (simp_all add: js_def)
  have "mergeScanResults ascii_lower Map.empty rs = (md, snd (mergeScanResults ascii_lower Map.empty rs))"
    by (simp add: md_def)
  from mergeScanResults_confidence [OF this, of Total]
  have "total (merged_billData md) = js ''100''"
    and "merged_fieldConfidences md Total = 2 / 3"
    using ne by (simp_all add: w pv field_of_def)
  then show ?thesis
    by (simp add: md_def rs_def)
qed

subsection \<open>The date\<close>

lemma extract_date_first:
  "first_capture ps t = Some c \<Longrightarrow> length (split_on date_sep (trim c)) = 3
     \<Longrightarrow> extract_date ps t = normalize_date (split_on date_sep (trim c))"
  by (induction ps) (auto simp: Let_def split: option.splits)

text \<open>
  C5: when the date token matched in the text (the capture of the first date pattern that
  matches) splits at \<open>/\<close> and \<open>-\<close> into exactly three parts, the date field is written
  from them: year, month, day in this order if the first part has four characters, and
  otherwise day, month, year, a year of two characters being prefixed with \<open>20\<close>; month
  and day are padded with zeros to two characters.
\<close>

theorem date_normalization:
  assumes "first_capture datePatterns t = Some c"
    and "split_on date_sep (trim c) = [p0, p1, p2]"
  shows "date (extractBillData t) =
    (if length p0 = 4
     then p0 @ js ''-'' @ (replicate (2 - length p1) (ch CHR ''0'') @ p1)
             @ js ''-'' @ (replicate (2 - length p2) (ch CHR ''0'') @ p2)
     else (if length p2 = 2 then js ''20'' @ p2 else p2)
             @ js ''-'' @ (replicate (2 - length p1) (ch CHR ''0'') @ p1)
             @ js ''-'' @ (replicate (2 - length p0) (ch CHR ''0'') @ p0))"
  using extract_date_first [OF assms(1)] assms(2)
  by (simp add: date_extract normalize_date_def padStart_def)

theorem date_normalization_witness:
  "date (extractBillData (js ''Date: 25/12/2024'')) = js ''2024-12-25''
   \<and> date (extractBillData (js ''2024-1-5'')) = js ''2024-01-05''"
  using date_normalization [OF date_token_labelled date_parts_labelled]
    date_normalization [OF date_token_bare date_parts_bare]
  by (simp add: js_def ch_def)

subsection \<open>The total\<close>






subsection \<open>The confidence of a field\<close>

text \<open>
  C8 on the text \<open>Invoice No: A1\<close> with no OCR word and an overall OCR confidence of 0:
  the bill number \<open>A1\<close> is not empty and no word matches it, so the claim gives the
  overall confidence divided by 100, which is 0. The test \<^verbatim>\<open>ocrData.confidence ? ... : 0.5\<close>
  takes the number 0 for a missing confidence, and the field gets 0.5.
\<close>

theorem fieldConfidence_zero_overall:
  "billNo (extractBillData (js ''Invoice No: A1'')) = js ''A1''
   \<and> matchingWords ascii_lower [] (js ''A1'') = []
   \<and> fieldConfidences (fst (extractBillDataWithConfidence ascii_lower Map.empty
         (js ''Invoice No: A1'') \<lparr>ocr_confidence = Some 0, words = []\<rparr>)) BillNo = 1 / 2
   \<and> (0::rat) / 100 \<noteq> 1 / 2"
  apply (simp add: extractBillDataWithConfidence_def Let_def field_of_def billNo_A1
      fieldConfidence_def matchingWords_def)
  apply (simp add: present_def trim_def js_def is_ws_def)
  done

end
